theory Spec2Isabelle
  imports Main "HOL-Library.Sublist" "HOL-Library.Char_ord" "HOL-Library.List_Lexorder"
begin

section \<open>Strings and bytes\<close>

text \<open>
  A Python \<open>str\<close> is modelled as a \<open>string\<close>: a list of characters with code points
  below 256. A \<open>bytes\<close> value is a list of 8-bit characters too. On that range
  \<open>str.lower\<close>, the regular-expression classes \<open>\s\<close> and \<open>\w\<close> of a \<open>str\<close> pattern and
  the comparison of strings are the functions below; \<open>startswith\<close> and \<open>endswith\<close> are
  \<open>prefix\<close> and \<open>suffix\<close>.
\<close>

definition lower_char :: "char \<Rightarrow> char" where
  "lower_char c =
     (let n = (of_char c :: nat)
      in if (65 \<le> n \<and> n \<le> 90) \<or> (192 \<le> n \<and> n \<le> 222 \<and> n \<noteq> 215)
         then char_of (n + 32) else c)"

definition lower :: "string \<Rightarrow> string" where
  "lower s = map lower_char s"

definition is_space :: "char \<Rightarrow> bool" where
  "is_space c =
     (let n = (of_char c :: nat)
      in (9 \<le> n \<and> n \<le> 13) \<or> (28 \<le> n \<and> n \<le> 32) \<or> n = 133 \<or> n = 160)"

definition is_word :: "char \<Rightarrow> bool" where
  "is_word c =
     (let n = (of_char c :: nat)
      in (48 \<le> n \<and> n \<le> 57) \<or> (65 \<le> n \<and> n \<le> 90) \<or> n = 95 \<or> (97 \<le> n \<and> n \<le> 122)
         \<or> n = 170 \<or> n = 178 \<or> n = 179 \<or> n = 181 \<or> n = 185 \<or> n = 186
         \<or> (188 \<le> n \<and> n \<le> 190) \<or> (192 \<le> n \<and> n \<le> 214) \<or> (216 \<le> n \<and> n \<le> 246)
         \<or> 248 \<le> n)"

text \<open>\<open>os.path.basename\<close> (POSIX): what follows the last slash.\<close>

definition basename :: "string \<Rightarrow> string" where
  "basename p = rev (takeWhile (\<lambda>c. c \<noteq> CHR ''/'') (rev p))"

section \<open>Configuration\<close>

definition IGNORE_PATHS :: "string list" where
  "IGNORE_PATHS = [''textures/common/'', ''textures/radiant/notex'']"

definition IGNORE_TERMS :: "string set" where
  "IGNORE_TERMS = {''noshader'', ''shadernotfound'', ''$lightmap'', ''$whiteimage'', ''flareshader''}"

definition should_ignore :: "string \<Rightarrow> bool" where
  "should_ignore dep = (let low = lower dep in list_ex (\<lambda>pre. prefix pre low) IGNORE_PATHS)"

section \<open>The format-fallback match\<close>

text \<open>
  \<open>find_in_set\<close> returns the first candidate that is a member of \<open>s\<close>, or \<open>None\<close>.
  \<open>low[:-4]\<close> is \<open>take (length low - 4) low\<close>.
\<close>

definition find_in_set :: "string \<Rightarrow> string set \<Rightarrow> string option" where
  "find_in_set base s =
     (let low = lower base;
          name = basename low;
          cands =
            (if CHR ''.'' \<notin> set name then map (\<lambda>ext. low @ ext) [''.tga'', ''.jpg''] @ [low]
             else if suffix ''.tga'' low then [low, take (length low - 4) low @ ''.jpg'']
             else if suffix ''.jpg'' low then [low, take (length low - 4) low @ ''.tga'']
             else [low])
      in find (\<lambda>c. c \<in> s) cands)"

text \<open>
  The candidates of the specification, read as it is written: formed from the base path
  itself, with no change of letter case.
\<close>

definition spec_candidates :: "string \<Rightarrow> string list" where
  "spec_candidates B =
     (if CHR ''.'' \<notin> set (basename B) then [B @ ''.tga'', B @ ''.jpg'', B]
      else if suffix ''.tga'' B then [B, take (length B - 4) B @ ''.jpg'']
      else if suffix ''.jpg'' B then [B, take (length B - 4) B @ ''.tga'']
      else [B])"

definition spec_fallback_match :: "string \<Rightarrow> string set \<Rightarrow> string option" where
  "spec_fallback_match B S = find (\<lambda>c. c \<in> S) (spec_candidates B)"

section \<open>Texture folders of the map archive\<close>

text \<open>\<open>str.split(sep)\<close> with a one-character separator: never an empty list.\<close>

fun split_on :: "char \<Rightarrow> string \<Rightarrow> string list" where
  "split_on sep [] = [[]]"
| "split_on sep (c # cs) =
     (if c = sep then [] # split_on sep cs
      else (case split_on sep cs of [] \<Rightarrow> [[c]] | w # ws \<Rightarrow> (c # w) # ws))"

definition get_texture_folders :: "string set \<Rightarrow> string set" where
  "get_texture_folders map_files =
     (\<lambda>f. ''textures/'' @ (split_on CHR ''/'' f ! 1) @ ''/'')
       ` Set.filter (\<lambda>f. prefix ''textures/'' f \<and> length (split_on CHR ''/'' f) > 1) map_files"

section \<open>The classification loop\<close>

record buckets =
  found_map :: "string list"
  found_demo :: "string list"
  found_patch :: "string list"
  found_full :: "string list"
  missing :: "string list"

definition no_buckets :: buckets where
  "no_buckets = \<lparr>found_map = [], found_demo = [], found_patch = [], found_full = [], missing = []\<rparr>"

text \<open>
  The test \<open>if find_in_set(dep, s):\<close> is on the truth value of the result: \<open>None\<close> and the
  empty string are false.
\<close>

definition truthy :: "string option \<Rightarrow> bool" where
  "truthy r = (case r of None \<Rightarrow> False | Some c \<Rightarrow> c \<noteq> [])"

definition skipped :: "string \<Rightarrow> bool" where
  "skipped dep = (lower dep \<in> IGNORE_TERMS \<or> should_ignore dep)"

definition in_texture_folder :: "string set \<Rightarrow> string \<Rightarrow> bool" where
  "in_texture_folder texture_folders dep = (\<exists>folder \<in> texture_folders. prefix folder (lower dep))"

text \<open>One iteration of the loop over \<open>sorted(deps)\<close>; \<open>continue\<close> leaves the lists as they are.\<close>

definition classify_step ::
  "string set \<Rightarrow> string set \<Rightarrow> string set \<Rightarrow> string set \<Rightarrow> string set \<Rightarrow> buckets \<Rightarrow> string \<Rightarrow> buckets"
where
  "classify_step texture_folders map_files demo_files patch_files full_files st dep =
     (if lower dep \<in> IGNORE_TERMS then st
      else if should_ignore dep then st
      else if in_texture_folder texture_folders dep then st\<lparr>found_map := found_map st @ [dep]\<rparr>
      else if truthy (find_in_set dep map_files) then st\<lparr>found_map := found_map st @ [dep]\<rparr>
      else if truthy (find_in_set dep demo_files) then st\<lparr>found_demo := found_demo st @ [dep]\<rparr>
      else if truthy (find_in_set dep patch_files) then st\<lparr>found_patch := found_patch st @ [dep]\<rparr>
      else if truthy (find_in_set dep full_files) then st\<lparr>found_full := found_full st @ [dep]\<rparr>
      else st\<lparr>missing := missing st @ [dep]\<rparr>)"

definition classify_all ::
  "string set \<Rightarrow> string set \<Rightarrow> string set \<Rightarrow> string set \<Rightarrow> string set \<Rightarrow> string list \<Rightarrow> buckets"
where
  "classify_all texture_folders map_files demo_files patch_files full_files ds =
     foldl (classify_step texture_folders map_files demo_files patch_files full_files) no_buckets ds"

text \<open>
  The main part of the script: the texture folders come from the map's file list, and the
  dependencies, a set, are visited in sorted order.
\<close>

definition resolve ::
  "string set \<Rightarrow> string set \<Rightarrow> string set \<Rightarrow> string set \<Rightarrow> string set \<Rightarrow> buckets"
where
  "resolve map_files demo_files patch_files full_files deps =
     classify_all (get_texture_folders map_files) map_files demo_files patch_files full_files
       (sorted_list_of_set deps)"

datatype bucket = FoundMap | FoundDemo | FoundPatch | FoundFull | Missing

text \<open>The bucket the loop body chooses for a dependency that is not skipped.\<close>

definition bucket_of ::
  "string set \<Rightarrow> string set \<Rightarrow> string set \<Rightarrow> string set \<Rightarrow> string set \<Rightarrow> string \<Rightarrow> bucket"
where
  "bucket_of texture_folders map_files demo_files patch_files full_files dep =
     (if in_texture_folder texture_folders dep then FoundMap
      else if truthy (find_in_set dep map_files) then FoundMap
      else if truthy (find_in_set dep demo_files) then FoundDemo
      else if truthy (find_in_set dep patch_files) then FoundPatch
      else if truthy (find_in_set dep full_files) then FoundFull
      else Missing)"

fun bucket_list :: "bucket \<Rightarrow> buckets \<Rightarrow> string list" where
  "bucket_list FoundMap r = found_map r"
| "bucket_list FoundDemo r = found_demo r"
| "bucket_list FoundPatch r = found_patch r"
| "bucket_list FoundFull r = found_full r"
| "bucket_list Missing r = missing r"

section \<open>The final verdict\<close>

text \<open>
  The three \<open>RESULT\<close> lines of the report: \<open>YES\<close>, \<open>PROBABLY\<close> with the count it prints,
  \<open>NO\<close> with the count it prints.
\<close>

datatype verdict = Yes | Probably nat | No nat

definition final_verdict :: "buckets \<Rightarrow> verdict" where
  "final_verdict r =
     (let count_full = length (found_full r)
      in if count_full = 0 then Yes
         else if count_full \<le> 5 then Probably count_full
         else No count_full)"

section \<open>Archives\<close>

text \<open>
  A \<open>zipfile.ZipFile\<close> as the script uses it: \<open>namelist()\<close> in listing order and
  \<open>read(name)\<close>. The file system maps a path to what lies there, if anything.
\<close>

record zip_archive =
  namelist :: "string list"
  read :: "string \<Rightarrow> string"

datatype fs_entry = Archive zip_archive | NotArchive

datatype error = ArchiveCorrupt | NoBspFound | InvalidBsp | StructError

text \<open>An archive holding the given entries (names distinct), for concrete inputs.\<close>

definition archive_of :: "(string \<times> string) list \<Rightarrow> zip_archive" where
  "archive_of entries =
     \<lparr>namelist = map fst entries,
      read = (\<lambda>n. case map_of entries n of None \<Rightarrow> [] | Some d \<Rightarrow> d)\<rparr>"

definition load_zip_list :: "(string \<Rightarrow> fs_entry option) \<Rightarrow> string \<Rightarrow> error + string set" where
  "load_zip_list fs path =
     (case fs path of
        None \<Rightarrow> Inr {}
      | Some NotArchive \<Rightarrow> Inl ArchiveCorrupt
      | Some (Archive z) \<Rightarrow> Inr (lower ` set (namelist z)))"

section \<open>Reading the BSP\<close>

text \<open>Python's slice \<open>xs[a:b]\<close>: a negative index counts from the end, both are clamped.\<close>

definition clamp_index :: "nat \<Rightarrow> int \<Rightarrow> nat" where
  "clamp_index n i = (if i < 0 then nat (max 0 (int n + i)) else min n (nat i))"

definition py_slice :: "'a list \<Rightarrow> int \<Rightarrow> int \<Rightarrow> 'a list" where
  "py_slice xs a b =
     (let lo = clamp_index (length xs) a; hi = clamp_index (length xs) b
      in take (hi - lo) (drop lo xs))"

text \<open>\<open>struct.unpack("<ii", bs)\<close>: two signed 32-bit little-endian integers, from 8 bytes exactly.\<close>

definition le_i32 :: "string \<Rightarrow> int" where
  "le_i32 bs =
     (let u = foldr (\<lambda>b acc. of_char b + 256 * acc) bs (0::int)
      in if u \<ge> 2147483648 then u - 4294967296 else u)"

definition unpack_ii :: "string \<Rightarrow> (int \<times> int) option" where
  "unpack_ii bs = (if length bs = 8 then Some (le_i32 (take 4 bs), le_i32 (drop 4 bs)) else None)"

definition read_lumps :: "string \<Rightarrow> (int \<times> int) list option" where
  "read_lumps data =
     those (map (\<lambda>i. unpack_ii (py_slice data (8 + int i * 8) (8 + int i * 8 + 8))) [0..<17])"

text \<open>\<open>bs.decode("ascii", "ignore")\<close> drops every byte from 128 on.\<close>

definition ascii_ignore :: "string \<Rightarrow> string" where
  "ascii_ignore bs = filter (\<lambda>b. (of_char b :: nat) < 128) bs"

definition texture_records :: "string \<Rightarrow> int \<Rightarrow> int \<Rightarrow> string list" where
  "texture_records data off len =
     map (\<lambda>i. py_slice data (off + int i * 72) (off + int i * 72 + 64)) [0..<nat (len div 72)]"

definition record_name :: "string \<Rightarrow> string" where
  "record_name rec = ascii_ignore (takeWhile (\<lambda>b. b \<noteq> CHR 0x00) rec)"

definition extract_textures :: "string \<Rightarrow> int \<Rightarrow> int \<Rightarrow> string set" where
  "extract_textures data off len =
     Set.filter (\<lambda>name. name \<noteq> []) (set (map record_name (texture_records data off len)))"

section \<open>Entities\<close>

text \<open>
  One attempt of the pattern \<open>"key"\s*"([^"]+)"\<close> at the head of the text: the value and
  the number of characters the match spans.
\<close>

definition match_key :: "string \<Rightarrow> string \<Rightarrow> (string \<times> nat) option" where
  "match_key key t =
     (let q = [CHR 0x22] @ key @ [CHR 0x22]
      in if prefix q t then
           (let r1 = drop (length q) t;
                ws = takeWhile is_space r1;
                r2 = dropWhile is_space r1
            in case r2 of
                 [] \<Rightarrow> None
               | c # r3 \<Rightarrow>
                   (let v = takeWhile (\<lambda>x. x \<noteq> CHR 0x22) r3;
                        r4 = dropWhile (\<lambda>x. x \<noteq> CHR 0x22) r3
                    in if c = CHR 0x22 \<and> v \<noteq> [] \<and> r4 \<noteq> []
                       then Some (v, length q + length ws + 1 + length v + 1)
                       else None))
         else None)"

text \<open>\<open>re.finditer\<close>: after a match the scan goes on behind it, otherwise one character on.\<close>

fun finditer_key :: "string \<Rightarrow> string \<Rightarrow> string list" where
  "finditer_key key [] = []"
| "finditer_key key (c # cs) =
     (case match_key key (c # cs) of
        Some (v, n) \<Rightarrow> v # finditer_key key (drop (n - 1) cs)
      | None \<Rightarrow> finditer_key key cs)"

definition extract_entities :: "string \<Rightarrow> int \<Rightarrow> int \<Rightarrow> string set" where
  "extract_entities data off len =
     (let ents = ascii_ignore (py_slice data off (off + len))
      in (\<Union>key \<in> set [''model'', ''model2'', ''noise''].
            Set.filter (\<lambda>p. p \<noteq> [] \<and> \<not> prefix ''*'' p) (set (finditer_key key ents))))"

section \<open>Shader scripts\<close>

text \<open>
  \<open>re.sub(r"/\*.*?\*/", "", text, flags=re.S)\<close>: a \<open>/*\<close> with a later \<open>*/\<close> is removed
  up to the first such \<open>*/\<close>; \<open>close_at\<close> counts the characters up to and including it.
\<close>

fun close_at :: "string \<Rightarrow> nat option" where
  "close_at (a # b # cs) =
     (if a = CHR ''*'' \<and> b = CHR ''/'' then Some 2 else map_option Suc (close_at (b # cs)))"
| "close_at _ = None"

fun strip_block :: "string \<Rightarrow> string" where
  "strip_block [] = []"
| "strip_block (c # cs) =
     (if prefix ''/*'' (c # cs) then
        (case close_at (tl cs) of
           Some n \<Rightarrow> strip_block (drop (Suc n) cs)
         | None \<Rightarrow> c # strip_block cs)
      else c # strip_block cs)"

text \<open>\<open>re.sub(r"//.*", "", text)\<close>: from \<open>//\<close> to the end of the line, the newline stays.\<close>

function strip_line :: "string \<Rightarrow> string" where
  "strip_line [] = []"
| "strip_line (c # cs) =
     (if prefix ''//'' (c # cs) then strip_line (dropWhile (\<lambda>x. x \<noteq> CHR 0x0A) cs)
      else c # strip_line cs)"
  by pat_completeness auto
termination
  by (relation "measure length") (auto intro: le_imp_less_Suc length_dropWhile_le)

definition directives :: "string list" where
  "directives = [''qer_editorImage'', ''map'', ''clampMap'', ''animMap'']"

text \<open>\<open>\b\<close> between two neighbours, \<open>None\<close> being the start or the end of the text.\<close>

definition word_boundary :: "char option \<Rightarrow> char option \<Rightarrow> bool" where
  "word_boundary a b =
     ((case a of None \<Rightarrow> False | Some c \<Rightarrow> is_word c) \<noteq> (case b of None \<Rightarrow> False | Some c \<Rightarrow> is_word c))"

definition head :: "string \<Rightarrow> char option" where
  "head t = (case t of [] \<Rightarrow> None | c # _ \<Rightarrow> Some c)"

text \<open>
  One alternative \<open>k\<close> of \<open>\b(qer_editorImage|map|clampMap|animMap)\b\s+([^\s]+)\<close> at the head
  of the text, behind the first \<open>\b\<close>: the two groups and the length of the match.
\<close>

definition match_keyword :: "string \<Rightarrow> string \<Rightarrow> (string \<times> string \<times> nat) option" where
  "match_keyword k t =
     (if prefix k t then
        (let r1 = drop (length k) t;
             ws = takeWhile is_space r1;
             r2 = dropWhile is_space r1;
             path = takeWhile (\<lambda>c. \<not> is_space c) r2
         in if word_boundary (Some (last k)) (head r1) \<and> ws \<noteq> [] \<and> path \<noteq> []
            then Some (k, path, length k + length ws + length path)
            else None)
      else None)"

fun first_match :: "string list \<Rightarrow> string \<Rightarrow> (string \<times> string \<times> nat) option" where
  "first_match [] t = None"
| "first_match (k # ks) t =
     (case match_keyword k t of Some m \<Rightarrow> Some m | None \<Rightarrow> first_match ks t)"

definition match_directive :: "char option \<Rightarrow> string \<Rightarrow> (string \<times> string \<times> nat) option" where
  "match_directive prev t = (if word_boundary prev (head t) then first_match directives t else None)"

text \<open>\<open>re.findall\<close>, with the character before the current position for \<open>\b\<close>.\<close>

fun findall_directives :: "char option \<Rightarrow> string \<Rightarrow> (string \<times> string) list" where
  "findall_directives prev [] = []"
| "findall_directives prev (c # cs) =
     (case match_directive prev (c # cs) of
        Some (cmd, path, n) \<Rightarrow>
          (cmd, path) # findall_directives (Some ((c # cs) ! (n - 1))) (drop (n - 1) cs)
      | None \<Rightarrow> findall_directives (Some c) cs)"

text \<open>\<open>path.strip('"')\<close>\<close>

definition strip_quotes :: "string \<Rightarrow> string" where
  "strip_quotes p =
     rev (dropWhile (\<lambda>c. c = CHR 0x22) (rev (dropWhile (\<lambda>c. c = CHR 0x22) p)))"

definition shader_paths :: "string \<Rightarrow> string list" where
  "shader_paths text =
     filter (\<lambda>p. prefix ''textures/'' p \<or> prefix ''models/'' p \<or> prefix ''sound/'' p)
       (map (\<lambda>(cmd, path). strip_quotes path)
          (findall_directives None (strip_line (strip_block text))))"

section \<open>Gathering the dependencies\<close>

text \<open>
  \<open>gather_deps\<close> on an opened archive. The UTF-8 decoder of the shader scripts,
  \<open>bs.decode("utf-8", "ignore")\<close>, is the parameter \<open>utf8\<close>.
\<close>

definition gather_deps :: "(string \<Rightarrow> string) \<Rightarrow> zip_archive \<Rightarrow> error + (string set \<times> string set)" where
  "gather_deps utf8 z =
     (let files = lower ` set (namelist z);
          bsp_list = filter (\<lambda>f. prefix ''maps/'' (lower f) \<and> suffix ''.bsp'' (lower f)) (namelist z)
      in case bsp_list of
           [] \<Rightarrow> Inl NoBspFound
         | b # _ \<Rightarrow>
             (let data = read z b
              in if py_slice data 0 4 \<noteq> ''IBSP'' then Inl InvalidBsp
                 else
                   (case read_lumps data of
                      None \<Rightarrow> Inl StructError
                    | Some lumps \<Rightarrow>
                        (let textures = (case lumps ! 1 of (off, len) \<Rightarrow> extract_textures data off len);
                             ents_deps = (case lumps ! 0 of (off, len) \<Rightarrow> extract_entities data off len);
                             shader_deps =
                               (\<Union>sfile \<in> set (filter (\<lambda>f. prefix ''scripts/'' (lower f)
                                                              \<and> suffix ''.shader'' (lower f)) (namelist z)).
                                  set (shader_paths (utf8 (read z sfile))))
                         in Inr (textures \<union> ents_deps \<union> shader_deps, files)))))"

section \<open>The resolver\<close>

text \<open>What each list of the result holds, by induction over the dependencies visited.\<close>

lemma step_bucket:
  "set (bucket_list b (classify_step tf mf df pf ff st d)) =
     set (bucket_list b st) \<union> (if \<not> skipped d \<and> bucket_of tf mf df pf ff d = b then {d} else {})"
  by (cases b) (auto simp: classify_step_def skipped_def bucket_of_def)

lemma foldl_bucket:
  "set (bucket_list b (foldl (classify_step tf mf df pf ff) st ds)) =
     set (bucket_list b st) \<union> {d \<in> set ds. \<not> skipped d \<and> bucket_of tf mf df pf ff d = b}"
proof (induction ds arbitrary: st)
  case Nil
  then show ?case by simp
next
  case (Cons d ds)
  show ?case
    unfolding foldl_Cons Cons.IH step_bucket by auto
qed

lemma classify_all_bucket:
  "set (bucket_list b (classify_all tf mf df pf ff ds)) =
     {d \<in> set ds. \<not> skipped d \<and> bucket_of tf mf df pf ff d = b}"
  unfolding classify_all_def foldl_bucket by (cases b) (simp_all add: no_buckets_def)

lemma resolve_bucket:
  assumes "finite deps"
  shows "set (bucket_list b (resolve mf df pf ff deps)) =
     {d \<in> deps. \<not> skipped d \<and> bucket_of (get_texture_folders mf) mf df pf ff d = b}"
  unfolding resolve_def classify_all_bucket using assms by simp

lemma lower_Nil_iff: "lower s = [] \<longleftrightarrow> s = []"
  by (simp add: lower_def)

lemma find_in_set_nonempty:
  assumes "dep \<noteq> []" "find_in_set dep s = Some c"
  shows "c \<noteq> []"
proof -
  have low: "lower dep \<noteq> []" using assms(1) by (simp add: lower_Nil_iff)
  from assms(2) show ?thesis
    using low
    by (auto simp: find_in_set_def Let_def split: if_splits)
qed

lemma truthy_find_in_set:
  "dep \<noteq> [] \<Longrightarrow> truthy (find_in_set dep s) \<longleftrightarrow> find_in_set dep s \<noteq> None"
  by (cases "find_in_set dep s") (auto simp: truthy_def dest: find_in_set_nonempty)

text \<open>
  Claim C1. Every dependency that is not skipped lies in exactly one of the five lists of
  the result, and that list is the first in the order map, demo, patch, full, missing
  whose index matches it: the map, when the dependency lies in a texture folder of the
  map or the format-fallback match finds it in the map's files; else the demo archive,
  the patch archives, the full archive, each when the format-fallback match finds it
  there; else missing. So a dependency matched in the demo and in the full index, and not
  by the map, is found-in-demo. The dependencies the extractors return are never empty
  (\<open>gather_deps_nonempty\<close>).
\<close>

theorem classification_priority:
  assumes "finite deps" and "dep \<in> deps" and "dep \<noteq> []" and "\<not> skipped dep"
  shows "(\<exists>!b. dep \<in> set (bucket_list b (resolve map_files demo_files patch_files full_files deps)))
       \<and> dep \<in> set (bucket_list
            (if in_texture_folder (get_texture_folders map_files) dep
                \<or> find_in_set dep map_files \<noteq> None then FoundMap
             else if find_in_set dep demo_files \<noteq> None then FoundDemo
             else if find_in_set dep patch_files \<noteq> None then FoundPatch
             else if find_in_set dep full_files \<noteq> None then FoundFull
             else Missing)
            (resolve map_files demo_files patch_files full_files deps))"
proof -
  let ?r = "resolve map_files demo_files patch_files full_files deps"
  let ?b = "bucket_of (get_texture_folders map_files) map_files demo_files patch_files full_files dep"
  have mem: "dep \<in> set (bucket_list b ?r) \<longleftrightarrow> ?b = b" for b
    using assms by (simp add: resolve_bucket)
  have one: "\<exists>!b. dep \<in> set (bucket_list b ?r)"
    unfolding mem by simp
  have eq: "?b = (if in_texture_folder (get_texture_folders map_files) dep
                \<or> find_in_set dep map_files \<noteq> None then FoundMap
             else if find_in_set dep demo_files \<noteq> None then FoundDemo
             else if find_in_set dep patch_files \<noteq> None then FoundPatch
             else if find_in_set dep full_files \<noteq> None then FoundFull
             else Missing)"
    unfolding bucket_of_def truthy_find_in_set [OF assms(3)] by simp
  have "dep \<in> set (bucket_list ?b ?r)"
    unfolding mem by simp
  then have two: "dep \<in> set (bucket_list
            (if in_texture_folder (get_texture_folders map_files) dep
                \<or> find_in_set dep map_files \<noteq> None then FoundMap
             else if find_in_set dep demo_files \<noteq> None then FoundDemo
             else if find_in_set dep patch_files \<noteq> None then FoundPatch
             else if find_in_set dep full_files \<noteq> None then FoundFull
             else Missing) ?r)"
    unfolding eq .
  from one two show ?thesis by (rule conjI)
qed


theorem classification_priority_witness:
  "finite {''a'', ''textures/x''} \<and> ''a'' \<in> {''a'', ''textures/x''} \<and> ''a'' \<noteq> [] \<and> \<not> skipped ''a''
   \<and> find_in_set ''a'' {''a.tga''} \<noteq> None \<and> find_in_set ''a'' {''a.jpg''} \<noteq> None
   \<and> (\<exists>!b. ''a'' \<in> set (bucket_list b
          (resolve {''maps/m.bsp''} {''a.tga''} {} {''a.jpg''} {''a'', ''textures/x''})))
   \<and> ''a'' \<in> set (found_demo
          (resolve {''maps/m.bsp''} {''a.tga''} {} {''a.jpg''} {''a'', ''textures/x''}))"
proof -
  have h: "\<not> skipped ''a''" by code_simp
  have m: "find_in_set ''a'' {''a.tga''} \<noteq> None" "find_in_set ''a'' {''a.jpg''} \<noteq> None"
    by code_simp+
  have e: "(if in_texture_folder (get_texture_folders {''maps/m.bsp''}) ''a''
                \<or> find_in_set ''a'' {''maps/m.bsp''} \<noteq> None then FoundMap
             else if find_in_set ''a'' {''a.tga''} \<noteq> None then FoundDemo
             else if find_in_set ''a'' {} \<noteq> None then FoundPatch
             else if find_in_set ''a'' {''a.jpg''} \<noteq> None then FoundFull
             else Missing) = FoundDemo"
    by code_simp
  have "finite {''a'', ''textures/x''}" "''a'' \<in> {''a'', ''textures/x''}" "''a'' \<noteq> []"
    by simp_all
  from classification_priority [OF this h, of "{''maps/m.bsp''}" "{''a.tga''}" "{}" "{''a.jpg''}"]
  show ?thesis
    unfolding e using h m by simp
qed

text \<open>
  Claim C4. A dependency that is not skipped and whose lower-cased path starts with a
  texture-folder prefix of the map archive is in found-in-map and in no other list,
  whatever the four indices hold: no lookup of its name decides it.
\<close>

theorem texture_folder_shortcut:
  assumes "finite deps" and "dep \<in> deps" and "\<not> skipped dep"
    and "\<exists>folder \<in> get_texture_folders map_files. prefix folder (lower dep)"
  shows "dep \<in> set (bucket_list b (resolve map_files demo_files patch_files full_files deps))
           \<longleftrightarrow> b = FoundMap"
proof -
  have "bucket_of (get_texture_folders map_files) map_files demo_files patch_files full_files dep
          = FoundMap"
    using assms(4) by (simp add: bucket_of_def in_texture_folder_def)
  then show ?thesis
    using assms(1-3) by (auto simp: resolve_bucket)
qed

theorem texture_folder_shortcut_witness:
  "finite {''textures/foo/bar''} \<and> ''textures/foo/bar'' \<in> {''textures/foo/bar''}
   \<and> \<not> skipped ''textures/foo/bar''
   \<and> (\<exists>folder \<in> get_texture_folders {''maps/m.bsp'', ''textures/foo/bar.jpg''}.
         prefix folder (lower ''textures/foo/bar''))
   \<and> (\<forall>b. ''textures/foo/bar'' \<in> set (bucket_list b
          (resolve {''maps/m.bsp'', ''textures/foo/bar.jpg''} {} {} {''textures/foo/bar.tga''}
             {''textures/foo/bar''})) \<longleftrightarrow> b = FoundMap)"
proof -
  have h: "\<not> skipped ''textures/foo/bar''" by code_simp
  have f: "\<exists>folder \<in> get_texture_folders {''maps/m.bsp'', ''textures/foo/bar.jpg''}.
         prefix folder (lower ''textures/foo/bar'')"
    by code_simp
  have "finite {''textures/foo/bar''}" "''textures/foo/bar'' \<in> {''textures/foo/bar''}"
    by simp_all
  from texture_folder_shortcut [OF this h f, of _ "{}" "{}" "{''textures/foo/bar.tga''}"]
  show ?thesis
    using h f by simp
qed

text \<open>
  Claim C7. A dependency whose lower-cased form is one of the five ignored terms, or
  starts with one of the two ignored paths, is in none of the five lists, whatever the
  archives hold.
\<close>

theorem ignore_filters_priority:
  assumes "lower dep \<in> {''noshader'', ''shadernotfound'', ''$lightmap'', ''$whiteimage'', ''flareshader''}
           \<or> prefix ''textures/common/'' (lower dep)
           \<or> prefix ''textures/radiant/notex'' (lower dep)"
  shows "dep \<notin> set (bucket_list b (resolve map_files demo_files patch_files full_files deps))"
proof -
  have "skipped dep"
    using assms by (auto simp: skipped_def IGNORE_TERMS_def should_ignore_def IGNORE_PATHS_def)
  then show ?thesis
    by (simp add: resolve_def classify_all_bucket)
qed

theorem ignore_filters_priority_witness:
  "prefix ''textures/common/'' (lower ''Textures/Common/caulk'')
   \<and> (\<forall>b. ''Textures/Common/caulk'' \<notin> set (bucket_list b
          (resolve {''maps/m.bsp'', ''textures/common/caulk.tga''} {''textures/common/caulk.tga''} {}
             {''textures/common/caulk.jpg''} {''Textures/Common/caulk''})))"
proof -
  have p: "prefix ''textures/common/'' (lower ''Textures/Common/caulk'')" by code_simp
  then have "lower ''Textures/Common/caulk'' \<in> {''noshader'', ''shadernotfound'', ''$lightmap'', ''$whiteimage'', ''flareshader''}
           \<or> prefix ''textures/common/'' (lower ''Textures/Common/caulk'')
           \<or> prefix ''textures/radiant/notex'' (lower ''Textures/Common/caulk'')"
    by blast
  from ignore_filters_priority [OF this] p show ?thesis by blast
qed

section \<open>The format-fallback match: candidates\<close>

lemma basename_dot_suffix:
  assumes "low = stem @ [CHR ''.'', a, b, c]" "a \<noteq> CHR ''/''" "b \<noteq> CHR ''/''" "c \<noteq> CHR ''/''"
  shows "CHR ''.'' \<in> set (basename low)"
proof -
  have "rev low = [c, b, a, CHR ''.''] @ rev stem" using assms(1) by simp
  then have "takeWhile (\<lambda>x. x \<noteq> CHR ''/'') (rev low)
               = c # b # a # CHR ''.'' # takeWhile (\<lambda>x. x \<noteq> CHR ''/'') (rev stem)"
    using assms(2-4) by simp
  then show ?thesis by (simp add: basename_def)
qed

text \<open>
  Claim C2, as it is written, forms the candidates from the base path itself. The script
  lower-cases the base path first, so a path with a capital letter is matched where the
  candidates of the claim are not in the index.
\<close>

theorem find_in_set_not_lowered_counterexample:
  "find_in_set ''Textures/Foo'' {''textures/foo.tga''} = Some ''textures/foo.tga''
   \<and> spec_fallback_match ''Textures/Foo'' {''textures/foo.tga''} = None"
  by code_simp

text \<open>
  Claim C2, amended. With \<open>low\<close> the lower-cased base path, the candidates are tried in
  this order and the first member of the index is returned: \<open>low.tga\<close>, \<open>low.jpg\<close>, \<open>low\<close>
  when the filename component of \<open>low\<close> has no dot; \<open>low\<close>, then \<open>low\<close> with \<open>.tga\<close> replaced
  by \<open>.jpg\<close>, when \<open>low\<close> ends in \<open>.tga\<close>; \<open>low\<close>, then \<open>low\<close> with \<open>.jpg\<close> replaced by
  \<open>.tga\<close>, when \<open>low\<close> ends in \<open>.jpg\<close>; \<open>low\<close> only for any other extension. So
  \<open>sound/x.wav\<close> matches no index that lacks \<open>sound/x.wav\<close> itself, such as one holding
  \<open>sound/x.ogg\<close> only.
\<close>

theorem find_in_set_candidates:
  "(CHR ''.'' \<notin> set (basename (lower B)) \<longrightarrow>
      find_in_set B S =
        (if lower B @ ''.tga'' \<in> S then Some (lower B @ ''.tga'')
         else if lower B @ ''.jpg'' \<in> S then Some (lower B @ ''.jpg'')
         else if lower B \<in> S then Some (lower B) else None))
   \<and> (\<forall>stem. lower B = stem @ ''.tga'' \<longrightarrow>
      find_in_set B S =
        (if stem @ ''.tga'' \<in> S then Some (stem @ ''.tga'')
         else if stem @ ''.jpg'' \<in> S then Some (stem @ ''.jpg'') else None))
   \<and> (\<forall>stem. lower B = stem @ ''.jpg'' \<longrightarrow>
      find_in_set B S =
        (if stem @ ''.jpg'' \<in> S then Some (stem @ ''.jpg'')
         else if stem @ ''.tga'' \<in> S then Some (stem @ ''.tga'') else None))
   \<and> (CHR ''.'' \<in> set (basename (lower B)) \<and> \<not> suffix ''.tga'' (lower B)
        \<and> \<not> suffix ''.jpg'' (lower B) \<longrightarrow>
      find_in_set B S = (if lower B \<in> S then Some (lower B) else None))
   \<and> (''sound/x.wav'' \<notin> S \<longrightarrow> find_in_set ''sound/x.wav'' S = None)"
proof (intro conjI allI impI)
  assume "CHR ''.'' \<notin> set (basename (lower B))"
  then show "find_in_set B S =
        (if lower B @ ''.tga'' \<in> S then Some (lower B @ ''.tga'')
         else if lower B @ ''.jpg'' \<in> S then Some (lower B @ ''.jpg'')
         else if lower B \<in> S then Some (lower B) else None)"
    by (simp add: find_in_set_def Let_def)
next
  fix stem assume low: "lower B = stem @ ''.tga''"
  have "lower B = stem @ [CHR ''.'', CHR ''t'', CHR ''g'', CHR ''a'']" using low by simp
  then have dot: "CHR ''.'' \<in> set (basename (lower B))"
    by (rule basename_dot_suffix) simp_all
  have suf: "suffix ''.tga'' (lower B)" using low by (simp add: suffix_def)
  have tk: "take (length (lower B) - 4) (lower B) = stem" using low by simp
  show "find_in_set B S =
        (if stem @ ''.tga'' \<in> S then Some (stem @ ''.tga'')
         else if stem @ ''.jpg'' \<in> S then Some (stem @ ''.jpg'') else None)"
    using dot suf tk by (simp add: find_in_set_def Let_def low)
next
  fix stem assume low: "lower B = stem @ ''.jpg''"
  have "lower B = stem @ [CHR ''.'', CHR ''j'', CHR ''p'', CHR ''g'']" using low by simp
  then have dot: "CHR ''.'' \<in> set (basename (lower B))"
    by (rule basename_dot_suffix) simp_all
  have suf: "suffix ''.jpg'' (lower B)" using low by (simp add: suffix_def)
  have nsuf: "\<not> suffix ''.tga'' (lower B)" using low by (simp add: suffix_def)
  have tk: "take (length (lower B) - 4) (lower B) = stem" using low by simp
  show "find_in_set B S =
        (if stem @ ''.jpg'' \<in> S then Some (stem @ ''.jpg'')
         else if stem @ ''.tga'' \<in> S then Some (stem @ ''.tga'') else None)"
    using dot suf nsuf tk by (simp add: find_in_set_def Let_def low)
next
  assume "CHR ''.'' \<in> set (basename (lower B)) \<and> \<not> suffix ''.tga'' (lower B)
        \<and> \<not> suffix ''.jpg'' (lower B)"
  then show "find_in_set B S = (if lower B \<in> S then Some (lower B) else None)"
    by (simp add: find_in_set_def Let_def)
next
  assume n: "''sound/x.wav'' \<notin> S"
  have l: "lower ''sound/x.wav'' = ''sound/x.wav''" by code_simp
  have d: "CHR ''.'' \<in> set (basename ''sound/x.wav'')" by code_simp
  have s: "\<not> suffix ''.tga'' ''sound/x.wav''" "\<not> suffix ''.jpg'' ''sound/x.wav''" by code_simp+
  show "find_in_set ''sound/x.wav'' S = None"
    using n d s by (simp add: find_in_set_def Let_def l)
qed

theorem find_in_set_candidates_witness:
  "CHR ''.'' \<notin> set (basename (lower ''Textures/Foo''))
   \<and> find_in_set ''Textures/Foo'' {''textures/foo.jpg'', ''textures/foo''} = Some ''textures/foo.jpg''
   \<and> lower ''A/B.TGA'' = ''a/b'' @ ''.tga''
   \<and> find_in_set ''A/B.TGA'' {''a/b.jpg''} = Some ''a/b.jpg''
   \<and> lower ''a/b.jpg'' = ''a/b'' @ ''.jpg''
   \<and> find_in_set ''a/b.jpg'' {''a/b.tga''} = Some ''a/b.tga''
   \<and> CHR ''.'' \<in> set (basename (lower ''models/m.md3''))
   \<and> find_in_set ''models/m.md3'' {''models/m.tga'', ''models/m.jpg''} = None
   \<and> ''sound/x.wav'' \<notin> {''sound/x.ogg''}
   \<and> find_in_set ''sound/x.wav'' {''sound/x.ogg''} = None"
proof -
  have l1: "lower ''Textures/Foo'' = ''textures/foo''" by code_simp
  have h1: "CHR ''.'' \<notin> set (basename (lower ''Textures/Foo''))" by code_simp
  have h2: "lower ''A/B.TGA'' = ''a/b'' @ ''.tga''" by code_simp
  have h3: "lower ''a/b.jpg'' = ''a/b'' @ ''.jpg''" by code_simp
  have l4: "lower ''models/m.md3'' = ''models/m.md3''" by code_simp
  have h4: "CHR ''.'' \<in> set (basename (lower ''models/m.md3'')) \<and> \<not> suffix ''.tga'' (lower ''models/m.md3'')
        \<and> \<not> suffix ''.jpg'' (lower ''models/m.md3'')" by code_simp
  have h5: "''sound/x.wav'' \<notin> {''sound/x.ogg''}" by simp
  note t = find_in_set_candidates
  have c1: "find_in_set ''Textures/Foo'' {''textures/foo.jpg'', ''textures/foo''} = Some ''textures/foo.jpg''"
    using t [of "''Textures/Foo''" "{''textures/foo.jpg'', ''textures/foo''}"] h1 by (simp add: l1)
  have c2: "find_in_set ''A/B.TGA'' {''a/b.jpg''} = Some ''a/b.jpg''"
    using t [of "''A/B.TGA''" "{''a/b.jpg''}", THEN conjunct2, THEN conjunct1, rule_format, OF h2] by simp
  have c3: "find_in_set ''a/b.jpg'' {''a/b.tga''} = Some ''a/b.tga''"
    using t [of "''a/b.jpg''" "{''a/b.tga''}", THEN conjunct2, THEN conjunct2, THEN conjunct1, rule_format, OF h3] by simp
  have c4: "find_in_set ''models/m.md3'' {''models/m.tga'', ''models/m.jpg''} = None"
    using t [of "''models/m.md3''" "{''models/m.tga'', ''models/m.jpg''}", THEN conjunct2, THEN conjunct2, THEN conjunct2, THEN conjunct1, rule_format, OF h4]
    by (simp add: l4)
  have c5: "find_in_set ''sound/x.wav'' {''sound/x.ogg''} = None"
    using t [of _ "{''sound/x.ogg''}", THEN conjunct2, THEN conjunct2, THEN conjunct2, THEN conjunct2, rule_format, OF h5] .
  from h1 c1 h2 c2 h3 c3 h4 c4 h5 c5 show ?thesis by blast
qed

section \<open>Texture folders, archive index, verdict\<close>

text \<open>
  Claim C3. The texture folders are to hold the prefixes of the first-level subfolders
  of \<open>textures/\<close> only. For a file that lies directly under \<open>textures/\<close> the script adds a
  prefix made of the file's name: the test \<open>len(subfolder) > 1\<close> holds for every path that
  starts with \<open>textures/\<close>.
\<close>

theorem get_texture_folders_file_prefix:
  "get_texture_folders {''maps/m.bsp'', ''textures/foo.tga''} = {''textures/foo.tga/''}"
  by code_simp

lemma lower_char_idem: "lower_char (lower_char c) = lower_char c"
  by (simp add: lower_char_def Let_def)

lemma lower_idem: "lower (lower s) = lower s"
  by (simp add: lower_def lower_char_idem)

text \<open>
  Claim C8. Where no file exists at the path, the archive index is the empty set and no
  error; where an archive exists there, it is the set of its entry paths in lower case,
  and lower-casing a path of the index again leaves it as it is.
\<close>

theorem load_zip_list_index:
  "(fs path = None \<longrightarrow> load_zip_list fs path = Inr {})
   \<and> (fs path = Some (Archive z) \<longrightarrow>
        load_zip_list fs path = Inr (lower ` set (namelist z))
        \<and> (\<forall>p \<in> lower ` set (namelist z). lower p = p))"
  by (auto simp: load_zip_list_def lower_idem)

theorem load_zip_list_index_witness:
  "Map.empty ''baseq3/pak1.pk3'' = None
   \<and> load_zip_list Map.empty ''baseq3/pak1.pk3'' = Inr {}
   \<and> load_zip_list [''baseq3/pak0.pk3'' \<mapsto> Archive (archive_of [(''Textures/A.TGA'', ''x'')])]
        ''baseq3/pak0.pk3'' = Inr {''textures/a.tga''}"
proof -
  let ?z = "archive_of [(''Textures/A.TGA'', ''x'')]"
  let ?fs = "[''baseq3/pak0.pk3'' \<mapsto> Archive ?z]"
  have e: "(Map.empty :: string \<Rightarrow> fs_entry option) ''baseq3/pak1.pk3'' = None" by simp
  have a: "?fs ''baseq3/pak0.pk3'' = Some (Archive ?z)" by simp
  have n: "lower ` set (namelist ?z) = {''textures/a.tga''}" by code_simp
  from load_zip_list_index [of Map.empty "''baseq3/pak1.pk3''"] e
  have c1: "load_zip_list Map.empty ''baseq3/pak1.pk3'' = Inr {}" by blast
  from load_zip_list_index [of ?fs "''baseq3/pak0.pk3''" ?z] a
  have "load_zip_list ?fs ''baseq3/pak0.pk3'' = Inr (lower ` set (namelist ?z))" by blast
  with c1 e show ?thesis unfolding n by blast
qed

text \<open>
  Claim C9. The verdict depends on the number N of found-in-full dependencies only:
  \<open>YES\<close> for N = 0, \<open>PROBABLY\<close> with N for N from 1 to 5, \<open>NO\<close> with N for N above 5.
\<close>

theorem final_verdict_thresholds:
  "(length (found_full r) = 0 \<longrightarrow> final_verdict r = Yes)
   \<and> (1 \<le> length (found_full r) \<and> length (found_full r) \<le> 5 \<longrightarrow>
        final_verdict r = Probably (length (found_full r)))
   \<and> (5 < length (found_full r) \<longrightarrow> final_verdict r = No (length (found_full r)))
   \<and> (length (found_full r) = length (found_full r') \<longrightarrow> final_verdict r = final_verdict r')"
  by (auto simp: final_verdict_def Let_def)

theorem final_verdict_thresholds_witness:
  "final_verdict \<lparr>found_map = [''a''], found_demo = [], found_patch = [], found_full = [], missing = [''b'']\<rparr> = Yes
   \<and> final_verdict \<lparr>found_map = [], found_demo = [], found_patch = [],
        found_full = [''1'', ''2'', ''3'', ''4'', ''5''], missing = []\<rparr> = Probably 5
   \<and> final_verdict \<lparr>found_map = [], found_demo = [], found_patch = [],
        found_full = [''1'', ''2'', ''3'', ''4'', ''5'', ''6''], missing = []\<rparr> = No 6
   \<and> final_verdict \<lparr>found_map = [''a''], found_demo = [], found_patch = [], found_full = [''x''], missing = []\<rparr>
       = final_verdict \<lparr>found_map = [], found_demo = [''b''], found_patch = [], found_full = [''y''], missing = [''c'']\<rparr>"
proof -
  note t = final_verdict_thresholds
  have c1: "final_verdict \<lparr>found_map = [''a''], found_demo = [], found_patch = [], found_full = [], missing = [''b'']\<rparr> = Yes"
    using t [of "\<lparr>found_map = [''a''], found_demo = [], found_patch = [], found_full = [], missing = [''b'']\<rparr>"]
    by simp
  have c2: "final_verdict \<lparr>found_map = [], found_demo = [], found_patch = [],
        found_full = [''1'', ''2'', ''3'', ''4'', ''5''], missing = []\<rparr> = Probably 5"
    using t [of "\<lparr>found_map = [], found_demo = [], found_patch = [],
        found_full = [''1'', ''2'', ''3'', ''4'', ''5''], missing = []\<rparr>"]
    by simp
  have c3: "final_verdict \<lparr>found_map = [], found_demo = [], found_patch = [],
        found_full = [''1'', ''2'', ''3'', ''4'', ''5'', ''6''], missing = []\<rparr> = No 6"
    using t [of "\<lparr>found_map = [], found_demo = [], found_patch = [],
        found_full = [''1'', ''2'', ''3'', ''4'', ''5'', ''6''], missing = []\<rparr>"]
    by simp
  have c4: "final_verdict \<lparr>found_map = [''a''], found_demo = [], found_patch = [], found_full = [''x''], missing = []\<rparr>
       = final_verdict \<lparr>found_map = [], found_demo = [''b''], found_patch = [], found_full = [''y''], missing = [''c'']\<rparr>"
    by (rule t [THEN conjunct2, THEN conjunct2, THEN conjunct2, rule_format]) simp
  from c1 c2 c3 c4 show ?thesis by blast
qed

section \<open>Locating and reading the BSP\<close>












section \<open>Texture records\<close>










section \<open>Shader directives\<close>



























text \<open>No extractor returns the empty string as a dependency.\<close>

lemma gather_deps_nonempty:
  assumes "gather_deps utf8 z = Inr (deps, files)"
  shows "[] \<notin> deps"
  using assms
  by (auto simp: gather_deps_def Let_def extract_textures_def extract_entities_def shader_paths_def
      split: list.splits if_splits option.splits prod.splits)




end
